theory Spec2Isabelle
  imports Main "HOL-Library.Word"
begin

section \<open>Data model of \<^verbatim>\<open>restaurant_gui.py\<close>\<close>

text \<open>
  Python objects are shared by reference: the order's lines hold the very \<^verbatim>\<open>Product\<close>
  objects that the inventory's list holds, and \<^verbatim>\<open>reduce_stock\<close> mutates them in place.
  The model therefore has an explicit store. A reference is a number, the store maps
  every reference to the object it points to (Python has no dangling references, so the
  store is a total function), and the lists of the program hold references.
\<close>

type_synonym ref = nat

text \<open>
  \<^verbatim>\<open>class Product\<close>: the attribute \<^verbatim>\<open>id\<close> is the field \<open>pid\<close> (the name of the constructor's
  parameter; \<open>id\<close> is HOL's identity function). \<^verbatim>\<open>price\<close> is a Python float: the field
  holds its IEEE-754 binary64 bit pattern, which \<open>float_of_bits\<close> below reads.
\<close>

record Product =
  pid :: int
  name :: string
  price :: "64 word"
  stock :: int

type_synonym heap = "ref \<Rightarrow> Product"

text \<open>\<^verbatim>\<open>class Inventory\<close>: the file name and the list of (references to) products.\<close>

record Inventory =
  filename :: string
  products :: "ref list"

text \<open>\<^verbatim>\<open>class Order\<close>: \<^verbatim>\<open>items\<close> is a list of tuples \<^verbatim>\<open>(Product, qty)\<close>.\<close>

record Order =
  items :: "(ref \<times> int) list"

section \<open>Python floats\<close>

text \<open>
  A Python float is an IEEE-754 binary64 number. \<open>Finite m e\<close> is the number \<open>m * 2 ^ e\<close>
  (any such pair stands for its value; the arithmetic below produces the pair with the
  mantissa of the double), \<open>Infinite s\<close> is infinity, negative when \<open>s\<close> holds, and
  \<open>NaN\<close> is not-a-number. The sign of a zero is not kept: \<^verbatim>\<open>+\<close>, \<^verbatim>\<open>*\<close> and \<^verbatim>\<open>==\<close>, the only
  float operations of the program besides formatting, give results that differ at most
  in the sign of a zero when their arguments do.
\<close>

datatype pyfloat = Finite int int | Infinite bool | NaN

text \<open>The bits of a double: sign, 11 bits of exponent, 52 bits of fraction.\<close>

definition float_of_bits :: "64 word \<Rightarrow> pyfloat" where
  "float_of_bits w =
     (let n = unat w;
          negative = (2 ^ 63 \<le> n);
          ex = (n div 2 ^ 52) mod 2 ^ 11;
          fr = n mod 2 ^ 52
      in if ex = 2047 then (if fr = 0 then Infinite negative else NaN)
         else
           let m = (if ex = 0 then int fr else int (2 ^ 52 + fr));
               e = (if ex = 0 then - 1074 else int ex - 1075)
           in Finite (if negative then - m else m) e)"

text \<open>\<^verbatim>\<open>int.bit_length\<close>: the number of binary digits of \<open>n\<close>.\<close>

fun bit_length :: "nat \<Rightarrow> nat" where
  "bit_length n = (if n = 0 then 0 else Suc (bit_length (n div 2)))"

declare bit_length.simps [simp del]

text \<open>\<open>n / 2 ^ s\<close> rounded to the nearest integer, a tie going to the even one.\<close>

definition round_half_even :: "nat \<Rightarrow> nat \<Rightarrow> nat" where
  "round_half_even n s =
     (let d = n div 2 ^ s; r = n mod 2 ^ s
      in if 2 ^ s < 2 * r \<or> (2 * r = 2 ^ s \<and> odd d) then d + 1 else d)"

text \<open>
  The double nearest to the exact number \<open>m * 2 ^ e\<close>, ties to even: 53 bits of
  mantissa, the last of them worth \<open>2 ^ q\<close>, with \<open>q\<close> no less than \<open>- 1074\<close> (below
  that the doubles are subnormal and keep fewer bits); a result of \<open>2 ^ 1024\<close> or more in
  magnitude is infinity.
\<close>

definition round_to_double :: "int \<Rightarrow> int \<Rightarrow> pyfloat" where
  "round_to_double m e =
     (if m = 0 then Finite 0 0
      else
        let n = nat \<bar>m\<bar>;
            q = max (int (bit_length n) + e - 53) (- 1074);
            k = (if q \<le> e then n * 2 ^ nat (e - q) else round_half_even n (nat (q - e)))
        in if 971 < q \<or> (q = 971 \<and> 2 ^ 53 \<le> k) then Infinite (m < 0)
           else Finite (sgn m * int k) q)"

text \<open>Float addition, \<^verbatim>\<open>x + y\<close>: the exact sum, rounded once. It raises nothing.\<close>

fun fadd :: "pyfloat \<Rightarrow> pyfloat \<Rightarrow> pyfloat" where
  "fadd NaN y = NaN"
| "fadd (Infinite s) NaN = NaN"
| "fadd (Infinite s) (Infinite t) = (if s = t then Infinite s else NaN)"
| "fadd (Infinite s) (Finite m e) = Infinite s"
| "fadd (Finite m e) NaN = NaN"
| "fadd (Finite m e) (Infinite t) = Infinite t"
| "fadd (Finite m1 e1) (Finite m2 e2) =
     (let e = min e1 e2
      in round_to_double (m1 * 2 ^ nat (e1 - e) + m2 * 2 ^ nat (e2 - e)) e)"

text \<open>Float multiplication, \<^verbatim>\<open>x * y\<close>: the exact product, rounded once. It raises nothing.\<close>

fun fmul :: "pyfloat \<Rightarrow> pyfloat \<Rightarrow> pyfloat" where
  "fmul NaN y = NaN"
| "fmul (Infinite s) NaN = NaN"
| "fmul (Infinite s) (Infinite t) = Infinite (s \<noteq> t)"
| "fmul (Infinite s) (Finite m e) = (if m = 0 then NaN else Infinite (s \<noteq> (m < 0)))"
| "fmul (Finite m e) NaN = NaN"
| "fmul (Finite m e) (Infinite t) = (if m = 0 then NaN else Infinite (t \<noteq> (m < 0)))"
| "fmul (Finite m1 e1) (Finite m2 e2) = round_to_double (m1 * m2) (e1 + e2)"

text \<open>\<^verbatim>\<open>-x\<close> and \<^verbatim>\<open>x - y\<close>.\<close>

fun fneg :: "pyfloat \<Rightarrow> pyfloat" where
  "fneg (Finite m e) = Finite (- m) e"
| "fneg (Infinite s) = Infinite (\<not> s)"
| "fneg NaN = NaN"

definition fsub :: "pyfloat \<Rightarrow> pyfloat \<Rightarrow> pyfloat" where
  "fsub x y = fadd x (fneg y)"

text \<open>\<^verbatim>\<open>x == y\<close> on floats: equal values; \<^verbatim>\<open>nan\<close> equals nothing.\<close>

fun float_eq :: "pyfloat \<Rightarrow> pyfloat \<Rightarrow> bool" where
  "float_eq (Finite m1 e1) (Finite m2 e2) =
     (let e = min e1 e2 in m1 * 2 ^ nat (e1 - e) = m2 * 2 ^ nat (e2 - e))"
| "float_eq (Infinite s) (Infinite t) = (s = t)"
| "float_eq x y = False"

text \<open>\<^verbatim>\<open>fabs(x) >= fabs(y)\<close>, false when either is \<^verbatim>\<open>nan\<close>.\<close>

fun fabs_ge :: "pyfloat \<Rightarrow> pyfloat \<Rightarrow> bool" where
  "fabs_ge NaN y = False"
| "fabs_ge (Infinite s) NaN = False"
| "fabs_ge (Infinite s) (Infinite t) = True"
| "fabs_ge (Infinite s) (Finite m e) = True"
| "fabs_ge (Finite m e) NaN = False"
| "fabs_ge (Finite m e) (Infinite t) = False"
| "fabs_ge (Finite m1 e1) (Finite m2 e2) =
     (let e = min e1 e2 in \<bar>m2\<bar> * 2 ^ nat (e2 - e) \<le> \<bar>m1\<bar> * 2 ^ nat (e1 - e))"

text \<open>
  The conversion Python makes of the integer operand in \<^verbatim>\<open>float * int\<close> and \<^verbatim>\<open>int + float\<close>:
  the nearest double, and \<^verbatim>\<open>OverflowError\<close> (int too large to convert to float) when that
  would be infinite.
\<close>

datatype py_error = OverflowError

definition float_of_int :: "int \<Rightarrow> py_error + pyfloat" where
  "float_of_int q =
     (case round_to_double q 0 of
        Infinite s \<Rightarrow> Inl OverflowError
      | x \<Rightarrow> Inr x)"

text \<open>
  The builtin \<^verbatim>\<open>sum\<close> on floats, starting from the integer 0. The first float \<open>x\<close> is
  added as \<^verbatim>\<open>0 + x\<close>. CPython before 3.12 then adds the others one by one; from 3.12 it
  adds them with Neumaier's compensation: \<open>neumaier f c xs\<close> is its loop, \<open>f\<close> the running
  sum \<^verbatim>\<open>f_result\<close>, \<open>c\<close> the compensation, and the end adds \<open>c\<close> when it is finite and
  not zero. \<open>sum_algorithm\<close> says which interpreter runs the program. Of an empty
  sequence \<^verbatim>\<open>sum\<close> is the integer 0, here \<open>Finite 0 0\<close>.
\<close>

datatype sum_algorithm = One_by_one | Compensated

fun neumaier :: "pyfloat \<Rightarrow> pyfloat \<Rightarrow> pyfloat list \<Rightarrow> pyfloat" where
  "neumaier f c [] =
     (case c of Finite m e \<Rightarrow> if m \<noteq> 0 then fadd f c else f | Infinite s \<Rightarrow> f | NaN \<Rightarrow> f)"
| "neumaier f c (x # xs) =
     (let t = fadd f x;
          c' = (if fabs_ge f x then fadd c (fadd (fsub f t) x)
                else fadd c (fadd (fsub x t) f))
      in neumaier t c' xs)"

definition py_sum :: "sum_algorithm \<Rightarrow> pyfloat list \<Rightarrow> pyfloat" where
  "py_sum alg xs =
     (case xs of
        [] \<Rightarrow> Finite 0 0
      | x # rest \<Rightarrow>
          (case alg of
             One_by_one \<Rightarrow> foldl fadd (fadd (Finite 0 0) x) rest
           | Compensated \<Rightarrow> neumaier (fadd (Finite 0 0) x) (Finite 0 0) rest))"

section \<open>Inventory\<close>

text \<open>
  \<^verbatim>\<open>get_product\<close>: the \<^verbatim>\<open>for p in self.products\<close> loop, returning the first product whose
  id is \<open>i\<close>, and \<^verbatim>\<open>None\<close> when the loop runs out.
\<close>

fun get_product_loop :: "heap \<Rightarrow> ref list \<Rightarrow> int \<Rightarrow> ref option" where
  "get_product_loop h [] i = None"
| "get_product_loop h (p # ps) i =
     (if pid (h p) = i then Some p else get_product_loop h ps i)"

definition get_product :: "heap \<Rightarrow> Inventory \<Rightarrow> int \<Rightarrow> ref option" where
  "get_product h iv i = get_product_loop h (products iv) i"

text \<open>\<^verbatim>\<open>get_stock\<close>: \<^verbatim>\<open>return p.stock if p else 0\<close>.\<close>

definition get_stock :: "heap \<Rightarrow> Inventory \<Rightarrow> int \<Rightarrow> int" where
  "get_stock h iv i =
     (case get_product h iv i of None \<Rightarrow> 0 | Some p \<Rightarrow> stock (h p))"

text \<open>
  \<^verbatim>\<open>reduce_stock\<close>: the returned boolean and the store after the call. The three
  \<^verbatim>\<open>return False\<close> paths leave the store as it is; \<^verbatim>\<open>p.stock -= qty\<close> updates the one
  object \<open>p\<close>.
\<close>

definition reduce_stock :: "heap \<Rightarrow> Inventory \<Rightarrow> int \<Rightarrow> int \<Rightarrow> bool \<times> heap" where
  "reduce_stock h iv i qty =
     (case get_product h iv i of
        None \<Rightarrow> (False, h)
      | Some p \<Rightarrow>
          if qty \<le> 0 then (False, h)
          else if stock (h p) \<ge> qty
            then (True, h(p := (h p)\<lparr>stock := stock (h p) - qty\<rparr>))
          else (False, h))"

section \<open>Order\<close>

text \<open>\<^verbatim>\<open>Order()\<close>, \<^verbatim>\<open>add_item\<close> (\<^verbatim>\<open>self.items.append((product, qty))\<close>) and
  \<^verbatim>\<open>remove_last_item\<close> (\<^verbatim>\<open>if self.items: self.items.pop()\<close>).\<close>

definition new_Order :: Order where
  "new_Order = \<lparr>items = []\<rparr>"

definition add_item :: "Order \<Rightarrow> ref \<Rightarrow> int \<Rightarrow> Order" where
  "add_item ord product qty = ord\<lparr>items := items ord @ [(product, qty)]\<rparr>"

definition remove_last_item :: "Order \<Rightarrow> Order" where
  "remove_last_item ord =
     (if items ord \<noteq> [] then ord\<lparr>items := butlast (items ord)\<rparr> else ord)"

text \<open>
  \<^verbatim>\<open>total\<close>: \<^verbatim>\<open>sum(p.price * q for p, q in self.items)\<close>. \<open>amounts\<close> is the generator: the
  products \<^verbatim>\<open>p.price * q\<close> in the order of the lines, with the price the object has now,
  and \<open>Inl\<close> the exception when the conversion of a quantity raises. Nothing is
  written before the exception leaves \<^verbatim>\<open>total\<close>. (\<open>total\<close> is a constant of HOL; the
  method is \<open>Order_total\<close> here.)
\<close>

fun amounts :: "heap \<Rightarrow> (ref \<times> int) list \<Rightarrow> py_error + pyfloat list" where
  "amounts h [] = Inr []"
| "amounts h ((p, q) # rest) =
     (case float_of_int q of
        Inl err \<Rightarrow> Inl err
      | Inr x \<Rightarrow>
          (case amounts h rest of
             Inl err \<Rightarrow> Inl err
           | Inr xs \<Rightarrow> Inr (fmul (float_of_bits (price (h p))) x # xs)))"

definition Order_total :: "sum_algorithm \<Rightarrow> heap \<Rightarrow> Order \<Rightarrow> py_error + pyfloat" where
  "Order_total alg h ord =
     (case amounts h (items ord) of
        Inl err \<Rightarrow> Inl err
      | Inr xs \<Rightarrow> Inr (py_sum alg xs))"

section \<open>The application\<close>

text \<open>
  The state of \<^verbatim>\<open>RestaurantApp\<close> that the order logic reads and writes: the store, the
  inventory and the current order. Widgets are not part of the model; what a handler
  reads from them is an argument, and the message box it shows is its result.
\<close>

record app =
  store :: heap
  inventory :: Inventory
  order :: Order

text \<open>
  The message boxes of \<^verbatim>\<open>add_to_order\<close>, in the order of the source; \<open>Added\<close> is the
  path that shows none and reaches \<^verbatim>\<open>self.order.add_item\<close>.
\<close>

datatype add_msg =
  Nothing_selected
| Could_not_find
| Bad_quantity_not_whole
| Bad_quantity_at_least_1
| Added

text \<open>
  \<^verbatim>\<open>add_to_order\<close>. \<open>selected\<close> is \<^verbatim>\<open>self.menu_tree.selection()\<close> with every row
  identifier already read as the integer it spells (\<^verbatim>\<open>refresh_products\<close> inserts the
  rows with \<^verbatim>\<open>iid=str(p.id)\<close>). \<open>qty_text\<close> is the outcome of
  \<^verbatim>\<open>int(self.qty_var.get())\<close>: \<open>None\<close> when it raises \<^verbatim>\<open>ValueError\<close>. The two calls
  that end the method repaint the order table and the totals and write nothing that
  the model holds; they come after \<^verbatim>\<open>add_item\<close>, so the state is the one given here
  also when the repainting raises \<^verbatim>\<open>OverflowError\<close> on the new line's quantity.
\<close>

definition add_to_order :: "app \<Rightarrow> int list \<Rightarrow> int option \<Rightarrow> add_msg \<times> app" where
  "add_to_order a selected qty_text =
     (case selected of
        [] \<Rightarrow> (Nothing_selected, a)
      | i # _ \<Rightarrow>
          (case get_product (store a) (inventory a) i of
             None \<Rightarrow> (Could_not_find, a)
           | Some product \<Rightarrow>
               (case qty_text of
                  None \<Rightarrow> (Bad_quantity_not_whole, a)
                | Some qty \<Rightarrow>
                    if qty \<le> 0 then (Bad_quantity_at_least_1, a)
                    else (Added, a\<lparr>order := add_item (order a) product qty\<rparr>))))"

text \<open>
  The message boxes of \<^verbatim>\<open>_on_checkout\<close>. \<open>Stock_low q n avail\<close> is the warning
  \<^verbatim>\<open>We couldn't reserve {q} of {p.name}. Available: {get_stock(p.id)}\<close>; \<open>Declined\<close> is
  the silent return after a "no" to the confirmation; \<open>Raised\<close> is an exception that
  leaves the handler, with no message box.
\<close>

datatype checkout_msg =
  Empty_order
| Declined
| Stock_low int string int
| Success
| Raised py_error

text \<open>\<^verbatim>\<open>TAX_RATE = 0.07\<close>: the double nearest to 0.07, \<^verbatim>\<open>0x1.1eb851eb851ecp-4\<close>.\<close>

definition TAX_RATE :: pyfloat where
  "TAX_RATE = Finite 5044031582654956 (- 56)"

text \<open>
  \<^verbatim>\<open>update_order_summary\<close>: the three numbers it computes, \<^verbatim>\<open>subtotal\<close>, \<^verbatim>\<open>tax\<close> and
  \<^verbatim>\<open>total\<close>, before it formats each with \<^verbatim>\<open>:.2f\<close> for its label, or the exception that
  \<^verbatim>\<open>self.order.total()\<close> raises.
\<close>

definition update_order_summary ::
  "sum_algorithm \<Rightarrow> app \<Rightarrow> py_error + pyfloat \<times> pyfloat \<times> pyfloat" where
  "update_order_summary alg a =
     (case Order_total alg (store a) (order a) of
        Inl err \<Rightarrow> Inl err
      | Inr subtotal \<Rightarrow>
          (let tax = fmul subtotal TAX_RATE;
               total = fadd subtotal tax
           in Inr (subtotal, tax, total)))"

text \<open>
  The \<^verbatim>\<open>for p, q in self.order.items\<close> loop of \<^verbatim>\<open>_on_checkout\<close>: \<open>Some\<close> warning when it
  leaves by \<^verbatim>\<open>break\<close>, \<open>None\<close> when it runs to its \<^verbatim>\<open>else\<close> branch, with the store as
  the calls of \<^verbatim>\<open>reduce_stock\<close> left it.
\<close>

fun checkout_loop :: "heap \<Rightarrow> Inventory \<Rightarrow> (ref \<times> int) list \<Rightarrow> checkout_msg option \<times> heap" where
  "checkout_loop h iv [] = (None, h)"
| "checkout_loop h iv ((p, q) # rest) =
     (case reduce_stock h iv (pid (h p)) q of
        (ok, h') \<Rightarrow>
          if \<not> ok
            then (Some (Stock_low q (name (h' p)) (get_stock h' iv (pid (h' p)))), h')
          else checkout_loop h' iv rest)"

text \<open>
  \<^verbatim>\<open>_on_checkout\<close>. After the test for an empty order it computes \<^verbatim>\<open>subtotal\<close>, \<^verbatim>\<open>tax\<close> and
  \<^verbatim>\<open>total\<close> for the text of the confirmation; \<^verbatim>\<open>self.order.total()\<close> can raise, and then
  the handler is left with nothing changed. \<open>proceed\<close> is the answer to
  \<^verbatim>\<open>messagebox.askyesno\<close>. The text of the dialog is not part of the result.
\<close>

definition on_checkout :: "sum_algorithm \<Rightarrow> app \<Rightarrow> bool \<Rightarrow> checkout_msg \<times> app" where
  "on_checkout alg a proceed =
     (if items (order a) = [] then (Empty_order, a)
      else
        (case Order_total alg (store a) (order a) of
           Inl err \<Rightarrow> (Raised err, a)
         | Inr subtotal \<Rightarrow>
             (let tax = fmul subtotal TAX_RATE;
                  total = fadd subtotal tax
              in if \<not> proceed then (Declined, a)
                 else
                   (case checkout_loop (store a) (inventory a) (items (order a)) of
                      (Some warning, h') \<Rightarrow> (warning, a\<lparr>store := h'\<rparr>)
                    | (None, h') \<Rightarrow> (Success, a\<lparr>store := h', order := new_Order\<rparr>)))))"

section \<open>Notions used to state the properties\<close>

text \<open>
  A sequence of \<^verbatim>\<open>reduce_stock(pid, qty)\<close> calls, made one after the other on the same
  inventory: the store after the last of them. The returned booleans are dropped.
\<close>

fun reduce_stock_calls :: "heap \<Rightarrow> Inventory \<Rightarrow> (int \<times> int) list \<Rightarrow> heap" where
  "reduce_stock_calls h iv [] = h"
| "reduce_stock_calls h iv ((i, qty) # calls) =
     reduce_stock_calls (snd (reduce_stock h iv i qty)) iv calls"

text \<open>
  The call that \<^verbatim>\<open>_on_checkout\<close> makes for one line \<^verbatim>\<open>(p, q)\<close> of the order:
  \<^verbatim>\<open>self.inventory.reduce_stock(p.id, q)\<close>.
\<close>

definition line_call :: "heap \<Rightarrow> Inventory \<Rightarrow> ref \<times> int \<Rightarrow> bool \<times> heap" where
  "line_call h iv l = reduce_stock h iv (pid (h (fst l))) (snd l)"

text \<open>
  \<open>lines_succeed h iv ls\<close>: made in order from the store \<open>h\<close>, the call for every line
  of \<open>ls\<close> returns \<^verbatim>\<open>True\<close>. \<open>decrement_lines h iv ls\<close>: the store after the calls for
  the lines of \<open>ls\<close>, made in order.
\<close>

fun lines_succeed :: "heap \<Rightarrow> Inventory \<Rightarrow> (ref \<times> int) list \<Rightarrow> bool" where
  "lines_succeed h iv [] = True"
| "lines_succeed h iv (l # ls) =
     (fst (line_call h iv l) \<and> lines_succeed (snd (line_call h iv l)) iv ls)"

fun decrement_lines :: "heap \<Rightarrow> Inventory \<Rightarrow> (ref \<times> int) list \<Rightarrow> heap" where
  "decrement_lines h iv [] = h"
| "decrement_lines h iv (l # ls) = decrement_lines (snd (line_call h iv l)) iv ls"

text \<open>\<open>demand h ls i\<close>: the sum of the quantities of the lines of \<open>ls\<close> whose product has
  id \<open>i\<close>.\<close>

definition demand :: "heap \<Rightarrow> (ref \<times> int) list \<Rightarrow> int \<Rightarrow> int" where
  "demand h ls i = sum_list (map (\<lambda>l. if pid (h (fst l)) = i then snd l else 0) ls)"

text \<open>
  \<open>lines_fit h iv ls\<close>: every line of \<open>ls\<close> has a quantity above zero and a product whose
  id the inventory knows, and what the lines of \<open>ls\<close> ask of that id, taken together, is
  within its stock.
\<close>

definition lines_fit :: "heap \<Rightarrow> Inventory \<Rightarrow> (ref \<times> int) list \<Rightarrow> bool" where
  "lines_fit h iv ls \<longleftrightarrow>
     (\<forall>l \<in> set ls. 0 < snd l \<and> get_product h iv (pid (h (fst l))) \<noteq> None
        \<and> demand h ls (pid (h (fst l))) \<le> get_stock h iv (pid (h (fst l))))"

section \<open>A concrete station\<close>

text \<open>
  Three product objects at the references 10, 11 and 12: soup (id 7, stock 5), tea
  (id 8, stock 1) and a second object with id 7 later in the list (stock 9). The prices
  are the floats 5.0 and 2.0. \<open>app0\<close> has the order \<^verbatim>\<open>[(soup, 3), (tea, 2)]\<close>, \<open>app1\<close> the
  order \<^verbatim>\<open>[(soup, 3)]\<close>, \<open>app2\<close> the empty order.
\<close>

definition h0 :: heap where
  "h0 = (\<lambda>_. \<lparr>pid = 0, name = ''none'', price = 0, stock = 0\<rparr>)
          (10 := \<lparr>pid = 7, name = ''soup'', price = 0x4014000000000000, stock = 5\<rparr>,
           11 := \<lparr>pid = 8, name = ''tea'', price = 0x4000000000000000, stock = 1\<rparr>,
           12 := \<lparr>pid = 7, name = ''soup (old)'', price = 0x4014000000000000, stock = 9\<rparr>)"

text \<open>The store \<open>h0\<close> after three soups have been taken from the first soup object.\<close>

definition h0_after :: heap where
  "h0_after = h0(10 := (h0 10)\<lparr>stock := 2\<rparr>)"

definition iv0 :: Inventory where
  "iv0 = \<lparr>filename = ''menu.txt'', products = [10, 11, 12]\<rparr>"

definition app0 :: app where
  "app0 = \<lparr>store = h0, inventory = iv0, order = \<lparr>items = [(10, 3), (11, 2)]\<rparr>\<rparr>"

definition app1 :: app where
  "app1 = \<lparr>store = h0, inventory = iv0, order = \<lparr>items = [(10, 3)]\<rparr>\<rparr>"

definition app2 :: app where
  "app2 = \<lparr>store = h0, inventory = iv0, order = new_Order\<rparr>"

text \<open>
  A station with \<open>2 ^ 1024\<close> soups in stock and an order for all of them: a quantity
  that \<^verbatim>\<open>reduce_stock\<close> would grant and that no double can hold.
\<close>

definition h0_huge :: heap where
  "h0_huge = h0(10 := (h0 10)\<lparr>stock := 2 ^ 1024\<rparr>)"

definition app3 :: app where
  "app3 = \<lparr>store = h0_huge, inventory = iv0, order = \<lparr>items = [(10, 2 ^ 1024)]\<rparr>\<rparr>"

section \<open>Lookup\<close>

lemma get_product_loop_pid:
  "get_product_loop h ps i = Some p \<Longrightarrow> pid (h p) = i \<and> p \<in> set ps"
  by (induction ps) (auto split: if_splits)

lemma get_product_loop_same_ids:
  "(\<And>r. pid (h' r) = pid (h r)) \<Longrightarrow> get_product_loop h' ps i = get_product_loop h ps i"
  by (induction ps) auto

lemma get_product_loop_first:
  "(\<forall>x \<in> set pre. pid (h x) \<noteq> i) \<Longrightarrow> pid (h p) = i
     \<Longrightarrow> get_product_loop h (pre @ p # post) i = Some p"
  by (induction pre) auto

lemma get_product_same_ids:
  "(\<And>r. pid (h' r) = pid (h r)) \<Longrightarrow> get_product h' iv i = get_product h iv i"
  unfolding get_product_def by (rule get_product_loop_same_ids)

lemma get_product_pid: "get_product h iv i = Some p \<Longrightarrow> pid (h p) = i"
  by (simp add: get_product_def get_product_loop_pid)

lemma get_product_set_stock:
  "get_product (h(p := (h p)\<lparr>stock := s\<rparr>)) iv j = get_product h iv j"
  by (rule get_product_same_ids) simp

lemma get_stock_set_stock:
  "get_stock (h(p := (h p)\<lparr>stock := s\<rparr>)) iv j =
     (if get_product h iv j = Some p then s else get_stock h iv j)"
  by (auto simp: get_stock_def get_product_set_stock split: option.splits)

lemma reduce_stock_fails:
  "get_product h iv i = None \<or> qty \<le> 0 \<or> get_stock h iv i < qty
     \<Longrightarrow> reduce_stock h iv i qty = (False, h)"
  by (auto simp: reduce_stock_def get_stock_def split: option.splits)

lemma reduce_stock_succeeds:
  "get_product h iv i = Some p \<Longrightarrow> 0 < qty \<Longrightarrow> qty \<le> stock (h p)
     \<Longrightarrow> reduce_stock h iv i qty = (True, h(p := (h p)\<lparr>stock := stock (h p) - qty\<rparr>))"
  by (simp add: reduce_stock_def)

lemma reduce_stock_ids: "pid (snd (reduce_stock h iv i qty) r) = pid (h r)"
  by (simp add: reduce_stock_def split: option.splits)

text \<open>The concrete station, evaluated.\<close>

lemma h0_simps:
  "h0 10 = \<lparr>pid = 7, name = ''soup'', price = 0x4014000000000000, stock = 5\<rparr>"
  "h0 11 = \<lparr>pid = 8, name = ''tea'', price = 0x4000000000000000, stock = 1\<rparr>"
  "h0 12 = \<lparr>pid = 7, name = ''soup (old)'', price = 0x4014000000000000, stock = 9\<rparr>"
  by (simp_all add: h0_def)

lemma get_product_h0:
  "get_product h0 iv0 7 = Some 10" "get_product h0 iv0 8 = Some 11" "get_product h0 iv0 9 = None"
  by (simp_all add: get_product_def iv0_def h0_simps)

lemma get_stock_h0:
  "get_stock h0 iv0 7 = 5" "get_stock h0 iv0 8 = 1" "get_stock h0 iv0 9 = 0"
  by (simp_all add: get_stock_def get_product_h0 h0_simps)

section \<open>The contract of \<^verbatim>\<open>reduce_stock\<close>\<close>

text \<open>
  C2. For every store, inventory, id and quantity: \<^verbatim>\<open>reduce_stock\<close> returns \<^verbatim>\<open>False\<close> and
  leaves the store as it was when the id is absent, or the quantity is not positive, or
  the quantity exceeds the item's current stock. Otherwise it returns \<^verbatim>\<open>True\<close>, the one
  object that \<^verbatim>\<open>get_product\<close> finds has its stock lowered by the quantity, the stock read
  back for that id is lower by exactly the quantity, and the stock of every other id is
  what it was.
\<close>

theorem reduce_stock_contract:
  "(get_product h iv i = None \<or> qty \<le> 0 \<or> get_stock h iv i < qty
      \<longrightarrow> reduce_stock h iv i qty = (False, h))
   \<and> (\<forall>p. get_product h iv i = Some p \<and> 0 < qty \<and> qty \<le> get_stock h iv i
      \<longrightarrow> reduce_stock h iv i qty = (True, h(p := (h p)\<lparr>stock := stock (h p) - qty\<rparr>))
        \<and> get_stock (snd (reduce_stock h iv i qty)) iv i = get_stock h iv i - qty
        \<and> (\<forall>j. j \<noteq> i \<longrightarrow> get_stock (snd (reduce_stock h iv i qty)) iv j = get_stock h iv j))"
proof (intro conjI allI impI)
  assume "get_product h iv i = None \<or> qty \<le> 0 \<or> get_stock h iv i < qty"
  then show "reduce_stock h iv i qty = (False, h)" by (rule reduce_stock_fails)
next
  fix p
  assume a: "get_product h iv i = Some p \<and> 0 < qty \<and> qty \<le> get_stock h iv i"
  then have s: "get_stock h iv i = stock (h p)" by (simp add: get_stock_def)
  with a show r: "reduce_stock h iv i qty = (True, h(p := (h p)\<lparr>stock := stock (h p) - qty\<rparr>))"
    by (simp add: reduce_stock_succeeds)
  from a s show "get_stock (snd (reduce_stock h iv i qty)) iv i = get_stock h iv i - qty"
    by (simp add: r get_stock_set_stock)
  fix j assume "j \<noteq> i"
  with a have "get_product h iv j \<noteq> Some p" by (auto dest: get_product_pid)
  then show "get_stock (snd (reduce_stock h iv i qty)) iv j = get_stock h iv j"
    by (simp add: r get_stock_set_stock)
qed

theorem reduce_stock_contract_witness:
  "reduce_stock h0 iv0 9 1 = (False, h0)
   \<and> reduce_stock h0 iv0 7 0 = (False, h0)
   \<and> reduce_stock h0 iv0 7 6 = (False, h0)
   \<and> get_product h0 iv0 7 = Some 10
   \<and> reduce_stock h0 iv0 7 3 = (True, h0(10 := (h0 10)\<lparr>stock := 2\<rparr>))
   \<and> get_stock (snd (reduce_stock h0 iv0 7 3)) iv0 7 = 2
   \<and> get_stock (snd (reduce_stock h0 iv0 7 3)) iv0 8 = 1"
proof -
  have f1: "reduce_stock h0 iv0 9 1 = (False, h0)"
    using reduce_stock_contract [of h0 iv0 9 1] by (simp add: get_product_h0)
  have f2: "reduce_stock h0 iv0 7 0 = (False, h0)"
    using reduce_stock_contract [of h0 iv0 7 0] by simp
  have f3: "reduce_stock h0 iv0 7 6 = (False, h0)"
    using reduce_stock_contract [of h0 iv0 7 6] by (simp add: get_stock_h0)
  have pre: "get_product h0 iv0 7 = Some 10 \<and> (0::int) < 3 \<and> 3 \<le> get_stock h0 iv0 7"
    by (simp add: get_product_h0 get_stock_h0)
  note s = reduce_stock_contract [of h0 iv0 7 3, THEN conjunct2, THEN spec, THEN mp, OF pre]
  have s1: "reduce_stock h0 iv0 7 3 = (True, h0(10 := (h0 10)\<lparr>stock := 2\<rparr>))"
    using s [THEN conjunct1] by (simp add: h0_simps)
  have s2: "get_stock (snd (reduce_stock h0 iv0 7 3)) iv0 7 = 2"
    using s [THEN conjunct2, THEN conjunct1] by (simp add: get_stock_h0)
  have s3: "get_stock (snd (reduce_stock h0 iv0 7 3)) iv0 8 = 1"
    using s [THEN conjunct2, THEN conjunct2, THEN spec, of 8] by (simp add: get_stock_h0)
  from f1 f2 f3 pre s1 s2 s3 show ?thesis by blast
qed

lemma reduce_stock_keeps_nonneg:
  "0 \<le> stock (h r) \<Longrightarrow> 0 \<le> stock (snd (reduce_stock h iv i qty) r)"
  by (simp add: reduce_stock_def split: option.splits)

lemma reduce_stock_calls_nonneg:
  "\<forall>p \<in> set ps. 0 \<le> stock (h p)
     \<Longrightarrow> \<forall>p \<in> set ps. 0 \<le> stock (reduce_stock_calls h iv calls p)"
proof (induction calls arbitrary: h)
  case Nil
  then show ?case by simp
next
  case (Cons c calls)
  obtain i qty where c: "c = (i, qty)" by (cases c)
  have "\<forall>p \<in> set ps. 0 \<le> stock (snd (reduce_stock h iv i qty) p)"
    using Cons.prems by (simp add: reduce_stock_keeps_nonneg)
  then show ?case unfolding c reduce_stock_calls.simps by (rule Cons.IH)
qed

lemma get_stock_nonneg:
  "\<forall>p \<in> set (products iv). 0 \<le> stock (h p) \<Longrightarrow> 0 \<le> get_stock h iv i"
proof (cases "get_product h iv i")
  case None
  then show ?thesis by (simp add: get_stock_def)
next
  case (Some p)
  assume a: "\<forall>p \<in> set (products iv). 0 \<le> stock (h p)"
  from Some have "p \<in> set (products iv)"
    by (simp add: get_product_def get_product_loop_pid)
  with a Some show ?thesis by (simp add: get_stock_def)
qed

section \<open>Stock never goes below zero\<close>

text \<open>
  C3. Start from an inventory whose products all have stock \<open>\<ge> 0\<close> and make any sequence
  of \<^verbatim>\<open>reduce_stock\<close> calls. After each call (after every prefix of the sequence) every
  product of the inventory still has stock \<open>\<ge> 0\<close>, and so has the stock read back for
  every id. In any store, a call whose quantity would take the stock of its id below
  zero returns \<^verbatim>\<open>False\<close> and leaves the store unchanged.
\<close>

theorem stock_never_negative:
  assumes "\<forall>p \<in> set (products iv). 0 \<le> stock (h p)"
  shows "(\<forall>n. (\<forall>p \<in> set (products iv). 0 \<le> stock (reduce_stock_calls h iv (take n calls) p))
              \<and> (\<forall>i. 0 \<le> get_stock (reduce_stock_calls h iv (take n calls)) iv i))
       \<and> (\<forall>h' i qty. get_stock h' iv i - qty < 0 \<longrightarrow> reduce_stock h' iv i qty = (False, h'))"
proof (intro conjI allI impI)
  fix n
  show inv: "\<forall>p \<in> set (products iv). 0 \<le> stock (reduce_stock_calls h iv (take n calls) p)"
    using assms by (rule reduce_stock_calls_nonneg)
  fix i
  show "0 \<le> get_stock (reduce_stock_calls h iv (take n calls)) iv i"
    using inv by (rule get_stock_nonneg)
next
  fix h' i qty
  assume "get_stock h' iv i - qty < 0"
  then have "get_stock h' iv i < qty" by simp
  then show "reduce_stock h' iv i qty = (False, h')" by (simp add: reduce_stock_fails)
qed

theorem stock_never_negative_witness:
  "list_all (\<lambda>p. 0 \<le> stock (h0 p)) (products iv0)
   \<and> list_all (\<lambda>p. 0 \<le> stock (reduce_stock_calls h0 iv0 [(7, 3), (7, 3), (8, 1), (9, 1), (7, 2)] p))
         (products iv0)
   \<and> get_stock (reduce_stock_calls h0 iv0 [(7, 3), (7, 3), (8, 1), (9, 1), (7, 2)]) iv0 7 = 0
   \<and> reduce_stock h0 iv0 7 6 = (False, h0)"
proof -
  have pre: "\<forall>p \<in> set (products iv0). 0 \<le> stock (h0 p)"
    by (simp add: iv0_def h0_simps)
  note t = stock_never_negative [OF pre, of "[(7, 3), (7, 3), (8, 1), (9, 1), (7, 2)]"]
  have a: "\<forall>p \<in> set (products iv0).
         0 \<le> stock (reduce_stock_calls h0 iv0 [(7, 3), (7, 3), (8, 1), (9, 1), (7, 2)] p)"
    using t [THEN conjunct1, THEN spec, of 5, THEN conjunct1] by simp
  have b: "reduce_stock h0 iv0 7 6 = (False, h0)"
    using t [THEN conjunct2, THEN spec, THEN spec, THEN spec, of h0 7 6]
    by (simp add: get_stock_h0)
  have c: "get_stock (reduce_stock_calls h0 iv0 [(7, 3), (7, 3), (8, 1), (9, 1), (7, 2)]) iv0 7 = 0"
    by (simp add: reduce_stock_def get_stock_def get_product_def iv0_def h0_simps)
  from pre a b c show ?thesis unfolding list_all_iff by blast
qed

lemma reduce_stock_result:
  "get_product h iv i = Some p \<Longrightarrow>
     fst (reduce_stock h iv i qty) = (0 < qty \<and> qty \<le> stock (h p))"
  by (auto simp: reduce_stock_def)

lemma reduce_stock_elsewhere:
  "get_product h iv i = Some p \<Longrightarrow> r \<noteq> p \<Longrightarrow> snd (reduce_stock h iv i qty) r = h r"
  by (simp add: reduce_stock_def)

section \<open>Removing the last line\<close>

text \<open>
  C8. \<^verbatim>\<open>remove_last_item\<close> right after \<^verbatim>\<open>add_item(p, q)\<close> gives back exactly the order there
  was before the add; on the empty order it does nothing and the order stays empty
  (the model has no error path there, as the source has none); and after adding
  \<^verbatim>\<open>(pa, 1)\<close> and then \<^verbatim>\<open>(pb, 2)\<close> to an empty order it leaves the one line \<^verbatim>\<open>(pa, 1)\<close>.
\<close>

theorem remove_last_after_add:
  "remove_last_item (add_item t p q) = t
   \<and> remove_last_item new_Order = new_Order
   \<and> items (remove_last_item (add_item (add_item new_Order pa 1) pb 2)) = [(pa, 1)]"
  by (simp add: remove_last_item_def add_item_def new_Order_def)

section \<open>Adding a line\<close>

text \<open>
  C9. \<^verbatim>\<open>add_item\<close> puts the new line at the end of the order and leaves the lines before
  it as they were: the line count grows by exactly one, and two adds of the same product
  give two lines, one per call, in the order of the calls (no merging). A valid call of
  \<^verbatim>\<open>add_to_order\<close> (a selected row whose product is found, a quantity that is a whole
  number above zero) reaches \<^verbatim>\<open>add_item\<close> with that product and quantity and changes
  nothing else.
\<close>

theorem add_item_appends:
  "items (add_item t p q) = items t @ [(p, q)]
   \<and> length (items (add_item t p q)) = length (items t) + 1
   \<and> items (add_item (add_item t p q1) p q2) = items t @ [(p, q1), (p, q2)]
   \<and> (get_product (store a) (inventory a) i = Some p \<and> 0 < q \<longrightarrow>
        add_to_order a (i # sel) (Some q) = (Added, a\<lparr>order := add_item (order a) p q\<rparr>))"
  by (simp add: add_item_def add_to_order_def)

theorem add_item_appends_witness:
  "get_product (store app1) (inventory app1) 7 = Some 10
   \<and> add_to_order app1 [7] (Some 2)
       = (Added, app1\<lparr>order := \<lparr>items = [(10, 3), (10, 2)]\<rparr>\<rparr>)
   \<and> length (items (order (snd (add_to_order app1 [7] (Some 2))))) = 2"
proof -
  have g: "get_product (store app1) (inventory app1) 7 = Some 10 \<and> (0::int) < 2"
    by (simp add: app1_def get_product_h0)
  note t = add_item_appends [of "order app1" 10 2 1 2 app1 7 "[]"]
  have r: "add_to_order app1 [7] (Some 2) = (Added, app1\<lparr>order := add_item (order app1) 10 2\<rparr>)"
    by (rule t [THEN conjunct2, THEN conjunct2, THEN conjunct2, THEN mp, OF g])
  have i: "add_item (order app1) 10 2 = \<lparr>items = [(10, 3), (10, 2)]\<rparr>"
    using t [THEN conjunct1] by (simp add: app1_def)
  from g r i show ?thesis by simp
qed

section \<open>Quantities that are not positive integers\<close>

text \<open>
  C6, as stated for \<^verbatim>\<open>Order.add_item\<close>, does not hold: \<^verbatim>\<open>add_item\<close> has no check and
  appends a line for quantity 0 or -2 as for any other.
\<close>

theorem add_item_any_quantity_counterexample:
  "items (add_item new_Order 10 0) = [(10, 0)]
   \<and> items (add_item new_Order 10 (- 2)) \<noteq> items new_Order"
  by (simp add: add_item_def new_Order_def)

text \<open>
  C6, amended. The check is made by \<^verbatim>\<open>add_to_order\<close>, the caller of \<^verbatim>\<open>add_item\<close>. When
  the quantity entered is not a whole number (\<^verbatim>\<open>int\<close> raises \<^verbatim>\<open>ValueError\<close>) or is \<open>\<le> 0\<close>,
  \<^verbatim>\<open>add_to_order\<close> leaves the application state, and so the order's lines, exactly as
  they were, whatever is selected; and when a row is selected and its product is found,
  the message shown is one of the two \<^verbatim>\<open>Bad quantity\<close> warnings.
\<close>

theorem add_to_order_rejects_bad_quantity:
  assumes "qty_text = None \<or> (\<exists>q. qty_text = Some q \<and> q \<le> 0)"
  shows "snd (add_to_order a selected qty_text) = a
       \<and> (\<forall>i sel p. selected = i # sel \<and> get_product (store a) (inventory a) i = Some p \<longrightarrow>
            add_to_order a selected qty_text
              = (if qty_text = None then Bad_quantity_not_whole else Bad_quantity_at_least_1, a))"
  using assms by (auto simp: add_to_order_def split: list.splits option.splits)

theorem add_to_order_rejects_bad_quantity_witness:
  "add_to_order app1 [7] None = (Bad_quantity_not_whole, app1)
   \<and> add_to_order app1 [7] (Some 0) = (Bad_quantity_at_least_1, app1)
   \<and> snd (add_to_order app1 [] (Some (- 4))) = app1"
proof -
  have g: "[7] = 7 # [] \<and> get_product (store app1) (inventory app1) 7 = Some 10"
    by (simp add: app1_def get_product_h0)
  have n: "(None :: int option) = None \<or> (\<exists>q. (None :: int option) = Some q \<and> q \<le> 0)"
    by simp
  have z: "Some (0::int) = None \<or> (\<exists>q. Some (0::int) = Some q \<and> q \<le> 0)" by simp
  have m: "Some (- 4 :: int) = None \<or> (\<exists>q. Some (- 4 :: int) = Some q \<and> q \<le> 0)" by simp
  have a: "add_to_order app1 [7] None = (Bad_quantity_not_whole, app1)"
    using add_to_order_rejects_bad_quantity [OF n, of app1 "[7]", THEN conjunct2,
        THEN spec, THEN spec, THEN spec, THEN mp, OF g] by simp
  have b: "add_to_order app1 [7] (Some 0) = (Bad_quantity_at_least_1, app1)"
    using add_to_order_rejects_bad_quantity [OF z, of app1 "[7]", THEN conjunct2,
        THEN spec, THEN spec, THEN spec, THEN mp, OF g] by simp
  have c: "snd (add_to_order app1 [] (Some (- 4))) = app1"
    by (rule add_to_order_rejects_bad_quantity [OF m, THEN conjunct1])
  from a b c show ?thesis by simp
qed

section \<open>Evaluating floats\<close>

lemma bit_length_0 [simp]: "bit_length 0 = 0"
  by (subst bit_length.simps) simp

lemma bit_length_Suc_0 [simp]: "bit_length (Suc 0) = 1"
  by (subst bit_length.simps) simp

lemma bit_length_numeral [simp]:
  "bit_length (numeral k) = Suc (bit_length (numeral k div 2))"
  by (subst bit_length.simps) simp

lemmas float_eval = round_to_double_def round_half_even_def Let_def

section \<open>The arithmetic of the concrete station\<close>

lemma float_of_bits_examples:
  "float_of_bits 0x4014000000000000 = Finite 5629499534213120 (- 50)"
  "float_of_bits 0x4000000000000000 = Finite 4503599627370496 (- 51)"
  by (simp_all add: float_of_bits_def)

lemma float_of_int_examples:
  "float_of_int 3 = Inr (Finite 6755399441055744 (- 51))"
  "float_of_int 2 = Inr (Finite 4503599627370496 (- 51))"
  by (simp_all add: float_of_int_def float_eval)

lemma amount_examples:
  "fmul (Finite 5629499534213120 (- 50)) (Finite 6755399441055744 (- 51))
     = Finite 8444249301319680 (- 49)"
  "fmul (Finite 4503599627370496 (- 51)) (Finite 4503599627370496 (- 51))
     = Finite 4503599627370496 (- 50)"
  by (simp_all add: float_eval)

lemma amounts_app0:
  "amounts h0 [(10, 3), (11, 2)]
     = Inr [Finite 8444249301319680 (- 49), Finite 4503599627370496 (- 50)]"
  by (simp add: float_of_int_examples h0_simps float_of_bits_examples amount_examples
        del: fmul.simps)

lemma sum_examples:
  "fadd (Finite 0 0) (Finite 8444249301319680 (- 49)) = Finite 8444249301319680 (- 49)"
  "fadd (Finite 8444249301319680 (- 49)) (Finite 4503599627370496 (- 50))
     = Finite 5348024557502464 (- 48)"
  by (simp_all add: float_eval)

lemma compensation_examples:
  "fabs_ge (Finite 8444249301319680 (- 49)) (Finite 4503599627370496 (- 50))"
  "fsub (Finite 8444249301319680 (- 49)) (Finite 5348024557502464 (- 48))
     = Finite (- 4503599627370496) (- 50)"
  "fadd (Finite (- 4503599627370496) (- 50)) (Finite 4503599627370496 (- 50)) = Finite 0 0"
  "fadd (Finite 0 0) (Finite 0 0) = Finite 0 0"
  by (simp_all add: fsub_def float_eval)

lemma py_sum_app0:
  "py_sum alg [Finite 8444249301319680 (- 49), Finite 4503599627370496 (- 50)]
     = Finite 5348024557502464 (- 48)"
  by (cases alg)
    (simp_all add: py_sum_def sum_examples compensation_examples Let_def
       del: fadd.simps fabs_ge.simps)

lemma Order_total_app0:
  "Order_total alg h0 \<lparr>items = [(10, 3), (11, 2)]\<rparr> = Inr (Finite 5348024557502464 (- 48))"
  by (simp add: Order_total_def amounts_app0 py_sum_app0 del: amounts.simps)

lemma tax_examples:
  "fmul (Finite 5348024557502464 (- 48)) TAX_RATE = Finite 5989787504402760 (- 52)"
  "fadd (Finite 5348024557502464 (- 48)) (Finite 5989787504402760 (- 52))
     = Finite 5722386276527636 (- 48)"
  "fadd (Finite 1 0) TAX_RATE = Finite 4818851601286431 (- 52)"
  "fmul (Finite 5348024557502464 (- 48)) (Finite 4818851601286431 (- 52))
     = Finite 5722386276527637 (- 48)"
  by (simp_all add: TAX_RATE_def float_eval)

section \<open>Products that share an id\<close>

text \<open>
  C10. Let \<open>p\<close> be the first product in the inventory's list whose id is \<open>i\<close> (no product
  before it in the list has that id; products after it may). Then \<^verbatim>\<open>get_product(i)\<close>
  returns \<open>p\<close> and \<^verbatim>\<open>get_stock(i)\<close> is the stock of \<open>p\<close>. \<^verbatim>\<open>reduce_stock(i, qty)\<close> succeeds
  exactly when \<open>0 < qty \<le> stock p\<close>; when it succeeds it writes \<open>stock p - qty\<close> to the
  stock of \<open>p\<close>, when it fails it writes nothing, and in both cases every object other
  than \<open>p\<close>, so every later product with the same id, is what it was. Later duplicates
  are not observed either: in any store that agrees with this one on \<open>p\<close> and on the
  products before it, whatever the later objects hold, \<^verbatim>\<open>get_product\<close> finds \<open>p\<close>,
  \<^verbatim>\<open>get_stock\<close> reads the stock of \<open>p\<close>, and \<^verbatim>\<open>reduce_stock\<close> returns the same boolean and
  makes the same write to \<open>p\<close> and to nothing else.
\<close>

theorem get_product_first_match:
  assumes l: "products iv = pre @ p # post"
    and p: "pid (h p) = i"
    and pre: "\<forall>x \<in> set pre. pid (h x) \<noteq> i"
  shows "get_product h iv i = Some p
       \<and> get_stock h iv i = stock (h p)
       \<and> fst (reduce_stock h iv i qty) = (0 < qty \<and> qty \<le> stock (h p))
       \<and> reduce_stock h iv i qty
           = (if 0 < qty \<and> qty \<le> stock (h p)
              then (True, h(p := (h p)\<lparr>stock := stock (h p) - qty\<rparr>)) else (False, h))
       \<and> (\<forall>r. r \<noteq> p \<longrightarrow> snd (reduce_stock h iv i qty) r = h r)
       \<and> (\<forall>h2. (\<forall>x \<in> set pre. h2 x = h x) \<and> h2 p = h p \<longrightarrow>
              get_product h2 iv i = Some p
              \<and> get_stock h2 iv i = stock (h p)
              \<and> reduce_stock h2 iv i qty
                  = (if 0 < qty \<and> qty \<le> stock (h p)
                     then (True, h2(p := (h p)\<lparr>stock := stock (h p) - qty\<rparr>))
                     else (False, h2)))"
proof -
  have g: "get_product h iv i = Some p"
    unfolding get_product_def l using pre p by (rule get_product_loop_first)
  have s: "get_stock h iv i = stock (h p)" by (simp add: get_stock_def g)
  have f: "fst (reduce_stock h iv i qty) = (0 < qty \<and> qty \<le> stock (h p))"
    using g by (rule reduce_stock_result)
  have w: "reduce_stock h iv i qty
           = (if 0 < qty \<and> qty \<le> stock (h p)
              then (True, h(p := (h p)\<lparr>stock := stock (h p) - qty\<rparr>)) else (False, h))"
    by (simp add: reduce_stock_def g)
  have e: "\<forall>r. r \<noteq> p \<longrightarrow> snd (reduce_stock h iv i qty) r = h r"
    using g by (simp add: reduce_stock_elsewhere)
  have o: "\<forall>h2. (\<forall>x \<in> set pre. h2 x = h x) \<and> h2 p = h p \<longrightarrow>
              get_product h2 iv i = Some p
              \<and> get_stock h2 iv i = stock (h p)
              \<and> reduce_stock h2 iv i qty
                  = (if 0 < qty \<and> qty \<le> stock (h p)
                     then (True, h2(p := (h p)\<lparr>stock := stock (h p) - qty\<rparr>))
                     else (False, h2))"
  proof (intro allI impI)
    fix h2 assume a: "(\<forall>x \<in> set pre. h2 x = h x) \<and> h2 p = h p"
    have "get_product_loop h2 (pre @ p # post) i = Some p"
      using a pre p by (intro get_product_loop_first) auto
    then have g2: "get_product h2 iv i = Some p"
      by (simp add: get_product_def l)
    have s2: "get_stock h2 iv i = stock (h p)"
      using a by (simp add: get_stock_def g2)
    have r2: "reduce_stock h2 iv i qty
                  = (if 0 < qty \<and> qty \<le> stock (h p)
                     then (True, h2(p := (h p)\<lparr>stock := stock (h p) - qty\<rparr>))
                     else (False, h2))"
      using a by (simp add: reduce_stock_def g2)
    show "get_product h2 iv i = Some p
              \<and> get_stock h2 iv i = stock (h p)
              \<and> reduce_stock h2 iv i qty
                  = (if 0 < qty \<and> qty \<le> stock (h p)
                     then (True, h2(p := (h p)\<lparr>stock := stock (h p) - qty\<rparr>))
                     else (False, h2))"
      by (rule conjI [OF g2 conjI [OF s2 r2]])
  qed
  show ?thesis
    by (rule conjI [OF g conjI [OF s conjI [OF f conjI [OF w conjI [OF e o]]]]])
qed

theorem get_product_first_match_witness:
  "products iv0 = [] @ 10 # [11, 12] \<and> pid (h0 10) = 7 \<and> pid (h0 12) = 7
   \<and> get_product h0 iv0 7 = Some 10
   \<and> get_stock h0 iv0 7 = 5
   \<and> fst (reduce_stock h0 iv0 7 3)
   \<and> reduce_stock h0 iv0 7 3 = (True, h0(10 := (h0 10)\<lparr>stock := 2\<rparr>))
   \<and> stock (snd (reduce_stock h0 iv0 7 3) 10) = 2
   \<and> stock (snd (reduce_stock h0 iv0 7 3) 12) = 9
   \<and> reduce_stock h0 iv0 7 6 = (False, h0)
   \<and> snd (reduce_stock h0 iv0 7 3) 12 = h0 12
   \<and> get_stock (h0(12 := (h0 12)\<lparr>stock := 0\<rparr>)) iv0 7 = 5
   \<and> reduce_stock (h0(12 := (h0 12)\<lparr>stock := 0\<rparr>)) iv0 7 3
       = (True, h0(12 := (h0 12)\<lparr>stock := 0\<rparr>, 10 := (h0 10)\<lparr>stock := 2\<rparr>))"
proof -
  let ?h2 = "h0(12 := (h0 12)\<lparr>stock := 0\<rparr>)"
  have l: "products iv0 = [] @ 10 # [11, 12]" by (simp add: iv0_def)
  have p: "pid (h0 10) = 7" and d: "pid (h0 12) = 7" by (simp_all add: h0_simps)
  have pre: "\<forall>x \<in> set []. pid (h0 x) \<noteq> 7" by simp
  have st: "stock (h0 10) = 5" by (simp add: h0_simps)
  note t = get_product_first_match [OF l p pre, of 3]
  note t2 = t [THEN conjunct2]
  note t3 = t2 [THEN conjunct2]
  note t4 = t3 [THEN conjunct2]
  note t5 = t4 [THEN conjunct2]
  note u4 = get_product_first_match [OF l p pre, of 6, THEN conjunct2, THEN conjunct2,
      THEN conjunct2, THEN conjunct1]
  have a: "get_product h0 iv0 7 = Some 10" by (rule t [THEN conjunct1])
  have b: "get_stock h0 iv0 7 = 5" using t2 [THEN conjunct1] by (simp add: st)
  have c: "fst (reduce_stock h0 iv0 7 3)" using t3 [THEN conjunct1] by (simp add: st)
  have w: "reduce_stock h0 iv0 7 3 = (True, h0(10 := (h0 10)\<lparr>stock := 2\<rparr>))"
    using t4 [THEN conjunct1] by (simp add: st)
  have w10: "stock (snd (reduce_stock h0 iv0 7 3) 10) = 2" by (simp add: w)
  have w12: "stock (snd (reduce_stock h0 iv0 7 3) 12) = 9" by (simp add: w h0_simps)
  have n: "reduce_stock h0 iv0 7 6 = (False, h0)" using u4 by (simp add: st)
  have e: "snd (reduce_stock h0 iv0 7 3) 12 = h0 12"
    using t5 [THEN conjunct1, THEN spec, of 12] by simp
  have same: "(\<forall>x \<in> set []. ?h2 x = h0 x) \<and> ?h2 10 = h0 10" by simp
  note v = t5 [THEN conjunct2, THEN spec, THEN mp, OF same]
  have f: "get_stock ?h2 iv0 7 = 5" using v [THEN conjunct2, THEN conjunct1] by (simp add: st fun_upd_def)
  have r: "reduce_stock ?h2 iv0 7 3 = (True, ?h2(10 := (h0 10)\<lparr>stock := 2\<rparr>))"
    using v [THEN conjunct2, THEN conjunct2] by (simp add: st fun_upd_def)
  show ?thesis
    by (intro conjI) (rule l p d a b c w w10 w12 n e f r)+
qed

section \<open>Checkout\<close>

text \<open>
  C5. \<^verbatim>\<open>_on_checkout\<close> on an empty order shows \<^verbatim>\<open>Empty order\<close> and returns at once,
  whatever the answer to the confirmation would have been: the store, the inventory and
  the order are exactly what they were, so no stock was touched.
\<close>

theorem checkout_empty_rejected:
  "items (order a) = [] \<Longrightarrow> on_checkout alg a proceed = (Empty_order, a)"
  by (simp add: on_checkout_def)

theorem checkout_empty_rejected_witness:
  "items (order app2) = [] \<and> on_checkout One_by_one app2 True = (Empty_order, app2)
   \<and> on_checkout Compensated app2 False = (Empty_order, app2)
   \<and> store (snd (on_checkout One_by_one app2 True)) = h0"
proof -
  have e: "items (order app2) = []" by (simp add: app2_def new_Order_def)
  have r: "on_checkout One_by_one app2 True = (Empty_order, app2)"
    by (rule checkout_empty_rejected [OF e])
  have r': "on_checkout Compensated app2 False = (Empty_order, app2)"
    by (rule checkout_empty_rejected [OF e])
  have s: "store (snd (on_checkout One_by_one app2 True)) = h0"
    by (simp add: r) (simp add: app2_def)
  from e r r' s show ?thesis by simp
qed

lemma reduce_stock_failed: "\<not> fst (reduce_stock h iv i qty) \<Longrightarrow> snd (reduce_stock h iv i qty) = h"
  by (simp add: reduce_stock_def split: option.splits if_splits)

lemma line_call_failed: "\<not> fst (line_call h iv l) \<Longrightarrow> snd (line_call h iv l) = h"
  unfolding line_call_def by (rule reduce_stock_failed)

lemma line_call_ids: "pid (snd (line_call h iv l) r) = pid (h r)"
  unfolding line_call_def by (rule reduce_stock_ids)

lemma checkout_loop_Cons:
  "checkout_loop h iv ((p, q) # rest) =
     (if fst (line_call h iv (p, q))
      then checkout_loop (snd (line_call h iv (p, q))) iv rest
      else (Some (Stock_low q (name (h p)) (get_stock h iv (pid (h p)))), h))"
proof -
  obtain ok h' where r: "reduce_stock h iv (pid (h p)) q = (ok, h')"
    by (cases "reduce_stock h iv (pid (h p)) q")
  have "\<not> ok \<Longrightarrow> h' = h"
    using reduce_stock_failed [of h iv "pid (h p)" q] by (simp add: r)
  then show ?thesis by (auto simp: line_call_def r)
qed

lemma checkout_loop_append:
  "lines_succeed h iv pre \<Longrightarrow>
     checkout_loop h iv (pre @ rest) = checkout_loop (decrement_lines h iv pre) iv rest"
proof (induction pre arbitrary: h)
  case Nil
  show ?case by simp
next
  case (Cons l pre)
  obtain p q where l: "l = (p, q)" by (cases l)
  from Cons.prems have ok: "fst (line_call h iv (p, q))"
    and rest: "lines_succeed (snd (line_call h iv (p, q))) iv pre"
    by (simp_all add: l)
  have "checkout_loop h iv ((l # pre) @ rest)
          = checkout_loop (snd (line_call h iv (p, q))) iv (pre @ rest)"
    using ok by (simp add: l checkout_loop_Cons del: checkout_loop.simps)
  also have "\<dots> = checkout_loop (decrement_lines (snd (line_call h iv (p, q))) iv pre) iv rest"
    using rest by (rule Cons.IH)
  finally show ?case by (simp add: l)
qed

lemma checkout_loop_all:
  "lines_succeed h iv ls \<Longrightarrow> checkout_loop h iv ls = (None, decrement_lines h iv ls)"
  using checkout_loop_append [of h iv ls "[]"] by simp

lemma demand_same_ids:
  "(\<And>r. pid (h' r) = pid (h r)) \<Longrightarrow> demand h' ls i = demand h ls i"
  by (simp add: demand_def)

lemma demand_Cons:
  "demand h (l # ls) i = (if pid (h (fst l)) = i then snd l else 0) + demand h ls i"
  by (simp add: demand_def)

lemma get_stock_line_call:
  "fst (line_call h iv l) \<Longrightarrow>
     get_stock (snd (line_call h iv l)) iv i
       = get_stock h iv i - (if pid (h (fst l)) = i then snd l else 0)"
proof -
  assume ok: "fst (line_call h iv l)"
  then obtain p where g: "get_product h iv (pid (h (fst l))) = Some p"
    and q: "0 < snd l" "snd l \<le> stock (h p)"
    by (auto simp: line_call_def reduce_stock_def split: option.splits if_splits)
  then have r: "snd (line_call h iv l) = h(p := (h p)\<lparr>stock := stock (h p) - snd l\<rparr>)"
    by (simp add: line_call_def reduce_stock_succeeds)
  show ?thesis
  proof (cases "pid (h (fst l)) = i")
    case True
    with g show ?thesis by (simp add: r get_stock_set_stock) (simp add: get_stock_def)
  next
    case False
    have "pid (h p) = pid (h (fst l))" using g by (rule get_product_pid)
    with False have "get_product h iv i \<noteq> Some p" by (auto dest: get_product_pid)
    with False show ?thesis by (simp add: r get_stock_set_stock)
  qed
qed

lemma get_stock_decrement_lines:
  "lines_succeed h iv ls \<Longrightarrow>
     get_stock (decrement_lines h iv ls) iv i = get_stock h iv i - demand h ls i"
proof (induction ls arbitrary: h)
  case Nil
  show ?case by (simp add: demand_def)
next
  case (Cons l ls)
  let ?h = "snd (line_call h iv l)"
  from Cons.prems have ok: "fst (line_call h iv l)" and rest: "lines_succeed ?h iv ls"
    by simp_all
  have "get_stock (decrement_lines ?h iv ls) iv i = get_stock ?h iv i - demand ?h ls i"
    using rest by (rule Cons.IH)
  moreover have "demand ?h ls i = demand h ls i"
    by (rule demand_same_ids) (rule line_call_ids)
  moreover note get_stock_line_call [OF ok, of i]
  ultimately show ?case by (simp add: demand_Cons)
qed

lemma h0_after_simps:
  "h0_after 10 = \<lparr>pid = 7, name = ''soup'', price = 0x4014000000000000, stock = 2\<rparr>"
  "h0_after 11 = h0 11" "h0_after 12 = h0 12"
  by (simp_all add: h0_after_def h0_simps)

lemma get_product_h0_after:
  "get_product h0_after iv0 7 = Some 10" "get_product h0_after iv0 8 = Some 11"
  unfolding h0_after_def by (simp_all add: get_product_set_stock get_product_h0)

lemma get_stock_h0_after: "get_stock h0_after iv0 7 = 2" "get_stock h0_after iv0 8 = 1"
  by (simp_all add: get_stock_def get_product_h0_after h0_after_simps h0_simps)

lemma line_call_example: "line_call h0 iv0 (10, 3) = (True, h0_after)"
  by (simp add: line_call_def reduce_stock_def get_product_h0 h0_simps h0_after_def)

text \<open>What \<^verbatim>\<open>_on_checkout\<close> does once the total is computed, and when it is not.\<close>

lemma on_checkout_reaches_loop:
  "items (order a) \<noteq> [] \<Longrightarrow> Order_total alg (store a) (order a) = Inr s \<Longrightarrow>
     on_checkout alg a True =
       (case checkout_loop (store a) (inventory a) (items (order a)) of
          (Some warning, h') \<Rightarrow> (warning, a\<lparr>store := h'\<rparr>)
        | (None, h') \<Rightarrow> (Success, a\<lparr>store := h', order := new_Order\<rparr>))"
  by (simp add: on_checkout_def Let_def)

lemma on_checkout_declined:
  "items (order a) \<noteq> [] \<Longrightarrow> Order_total alg (store a) (order a) = Inr s \<Longrightarrow>
     on_checkout alg a False = (Declined, a)"
  by (simp add: on_checkout_def Let_def)

lemma on_checkout_raises:
  "items (order a) \<noteq> [] \<Longrightarrow> Order_total alg (store a) (order a) = Inl err \<Longrightarrow>
     on_checkout alg a proceed = (Raised err, a)"
  by (simp add: on_checkout_def)

text \<open>
  C1. Let the order's lines be \<open>pre\<close>, then the line \<open>(p, q)\<close>, then \<open>post\<close>; let the
  \<^verbatim>\<open>reduce_stock\<close> call of every line of \<open>pre\<close> succeed, made in order, and let the call for
  \<open>(p, q)\<close> fail in the store \<open>hk\<close> they leave: the first failure is at line
  \<open>length pre + 1\<close>. Then the loop of \<^verbatim>\<open>_on_checkout\<close> leaves by its \<^verbatim>\<open>break\<close> at that
  line with the \<^verbatim>\<open>Stock low\<close> warning for it. The store it leaves is \<open>hk\<close>, the store
  after the calls for \<open>pre\<close> and nothing more: the stock of every id is its old stock
  less the quantities that \<open>pre\<close> asked of it (the decrements made are kept), and no line
  of \<open>post\<close> has any part in it. The handler reaches that loop when the total for the
  confirmation has been computed and the operator has said yes; it then shows that
  warning and returns with that store, with the order there was, all its lines and
  quantities, and with the same inventory.
\<close>

theorem checkout_stops_at_first_failure:
  assumes l: "items (order a) = pre @ (p, q) # post"
    and ok: "lines_succeed (store a) (inventory a) pre"
    and hk: "hk = decrement_lines (store a) (inventory a) pre"
    and bad: "\<not> fst (line_call hk (inventory a) (p, q))"
  shows "checkout_loop (store a) (inventory a) (items (order a))
           = (Some (Stock_low q (name (hk p)) (get_stock hk (inventory a) (pid (hk p)))), hk)
       \<and> (\<forall>i. get_stock hk (inventory a) i
                = get_stock (store a) (inventory a) i - demand (store a) pre i)
       \<and> (\<forall>alg s. Order_total alg (store a) (order a) = Inr s \<longrightarrow>
             on_checkout alg a True
               = (Stock_low q (name (hk p)) (get_stock hk (inventory a) (pid (hk p))),
                  a\<lparr>store := hk\<rparr>)
             \<and> order (snd (on_checkout alg a True)) = order a
             \<and> inventory (snd (on_checkout alg a True)) = inventory a
             \<and> (\<forall>i. get_stock (store (snd (on_checkout alg a True))) (inventory a) i
                      = get_stock (store a) (inventory a) i - demand (store a) pre i))"
proof -
  have "checkout_loop (store a) (inventory a) (items (order a))
          = checkout_loop hk (inventory a) ((p, q) # post)"
    unfolding l hk using ok by (rule checkout_loop_append)
  also have "\<dots> = (Some (Stock_low q (name (hk p)) (get_stock hk (inventory a) (pid (hk p)))), hk)"
    using bad by (simp add: checkout_loop_Cons del: checkout_loop.simps)
  finally have c: "checkout_loop (store a) (inventory a) (items (order a))
           = (Some (Stock_low q (name (hk p)) (get_stock hk (inventory a) (pid (hk p)))), hk)" .
  have s: "\<forall>i. get_stock hk (inventory a) i
                = get_stock (store a) (inventory a) i - demand (store a) pre i"
    unfolding hk using ok by (simp add: get_stock_decrement_lines)
  have ne: "items (order a) \<noteq> []" by (simp add: l)
  have h: "\<forall>alg s. Order_total alg (store a) (order a) = Inr s \<longrightarrow>
             on_checkout alg a True
               = (Stock_low q (name (hk p)) (get_stock hk (inventory a) (pid (hk p))),
                  a\<lparr>store := hk\<rparr>)
             \<and> order (snd (on_checkout alg a True)) = order a
             \<and> inventory (snd (on_checkout alg a True)) = inventory a
             \<and> (\<forall>i. get_stock (store (snd (on_checkout alg a True))) (inventory a) i
                      = get_stock (store a) (inventory a) i - demand (store a) pre i)"
  proof (intro allI impI)
    fix alg s assume t: "Order_total alg (store a) (order a) = Inr s"
    have r: "on_checkout alg a True
               = (Stock_low q (name (hk p)) (get_stock hk (inventory a) (pid (hk p))),
                  a\<lparr>store := hk\<rparr>)"
      by (simp add: on_checkout_reaches_loop [OF ne t] c)
    from s show "on_checkout alg a True
               = (Stock_low q (name (hk p)) (get_stock hk (inventory a) (pid (hk p))),
                  a\<lparr>store := hk\<rparr>)
             \<and> order (snd (on_checkout alg a True)) = order a
             \<and> inventory (snd (on_checkout alg a True)) = inventory a
             \<and> (\<forall>i. get_stock (store (snd (on_checkout alg a True))) (inventory a) i
                      = get_stock (store a) (inventory a) i - demand (store a) pre i)"
      by (simp add: r)
  qed
  show ?thesis by (rule conjI [OF c conjI [OF s h]])
qed

lemma app0_fields:
  "store app0 = h0" "inventory app0 = iv0" "order app0 = \<lparr>items = [(10, 3), (11, 2)]\<rparr>"
  by (simp_all add: app0_def)

theorem checkout_stops_at_first_failure_witness:
  "items (order app0) = [(10, 3)] @ (11, 2) # []
   \<and> lines_succeed (store app0) (inventory app0) [(10, 3)]
   \<and> h0_after = decrement_lines (store app0) (inventory app0) [(10, 3)]
   \<and> \<not> fst (line_call h0_after (inventory app0) (11, 2))
   \<and> Order_total One_by_one (store app0) (order app0) = Inr (Finite 5348024557502464 (- 48))
   \<and> checkout_loop h0 iv0 [(10, 3), (11, 2)] = (Some (Stock_low 2 ''tea'' 1), h0_after)
   \<and> on_checkout One_by_one app0 True = (Stock_low 2 ''tea'' 1, app0\<lparr>store := h0_after\<rparr>)
   \<and> items (order (snd (on_checkout One_by_one app0 True))) = [(10, 3), (11, 2)]
   \<and> get_stock (store (snd (on_checkout One_by_one app0 True))) iv0 7 = 2
   \<and> get_stock (store (snd (on_checkout One_by_one app0 True))) iv0 8 = 1"
proof -
  note f = app0_fields
  have l: "items (order app0) = [(10, 3)] @ (11, 2) # []" by (simp add: f)
  have ok: "lines_succeed (store app0) (inventory app0) [(10, 3)]"
    unfolding f by (simp add: line_call_example)
  have hk: "h0_after = decrement_lines (store app0) (inventory app0) [(10, 3)]"
    unfolding f by (simp add: line_call_example)
  have bad: "\<not> fst (line_call h0_after (inventory app0) (11, 2))"
    unfolding f
    by (simp add: line_call_def reduce_stock_def get_product_h0_after h0_after_simps h0_simps)
  have tot: "Order_total One_by_one (store app0) (order app0)
               = Inr (Finite 5348024557502464 (- 48))"
    unfolding f by (rule Order_total_app0)
  note t = checkout_stops_at_first_failure [OF l ok hk bad]
  note u = t [THEN conjunct2, THEN conjunct2, THEN spec, THEN spec, THEN mp, OF tot]
  have c: "checkout_loop h0 iv0 [(10, 3), (11, 2)] = (Some (Stock_low 2 ''tea'' 1), h0_after)"
    using t [THEN conjunct1] unfolding f
    by (simp add: h0_after_simps h0_simps get_stock_h0_after del: checkout_loop.simps)
  have r: "on_checkout One_by_one app0 True = (Stock_low 2 ''tea'' 1, app0\<lparr>store := h0_after\<rparr>)"
    using u [THEN conjunct1] unfolding f
    by (simp add: h0_after_simps h0_simps get_stock_h0_after)
  have o: "items (order (snd (on_checkout One_by_one app0 True))) = [(10, 3), (11, 2)]"
    using u [THEN conjunct2, THEN conjunct1] by (simp add: f)
  have s7: "get_stock (store (snd (on_checkout One_by_one app0 True))) iv0 7 = 2"
    using u [THEN conjunct2, THEN conjunct2, THEN conjunct2, THEN spec, of 7]
    unfolding f by (simp add: get_stock_h0 demand_def h0_simps)
  have s8: "get_stock (store (snd (on_checkout One_by_one app0 True))) iv0 8 = 1"
    using u [THEN conjunct2, THEN conjunct2, THEN conjunct2, THEN spec, of 8]
    unfolding f by (simp add: get_stock_h0 demand_def h0_simps)
  show ?thesis by (intro conjI) (rule l ok hk bad tot c r o s7 s8)+
qed

text \<open>
  C4. When the order is not empty and the \<^verbatim>\<open>reduce_stock\<close> call of every line succeeds,
  made in order, the loop of \<^verbatim>\<open>_on_checkout\<close> runs to its \<^verbatim>\<open>else\<close> branch. The store it
  leaves is the store after all those calls, in which the stock of every id is its old
  stock less the sum of the quantities of the lines for that id. The handler reaches
  that loop when the total for the confirmation has been computed and the operator has
  said yes; it then shows \<^verbatim>\<open>Success\<close> and returns with that store and with a fresh
  \<^verbatim>\<open>Order()\<close>, which has no lines.
\<close>

theorem checkout_commits:
  assumes ne: "items (order a) \<noteq> []"
    and ok: "lines_succeed (store a) (inventory a) (items (order a))"
  shows "checkout_loop (store a) (inventory a) (items (order a))
           = (None, decrement_lines (store a) (inventory a) (items (order a)))
       \<and> (\<forall>i. get_stock (decrement_lines (store a) (inventory a) (items (order a)))
                  (inventory a) i
                = get_stock (store a) (inventory a) i - demand (store a) (items (order a)) i)
       \<and> (\<forall>alg s. Order_total alg (store a) (order a) = Inr s \<longrightarrow>
             on_checkout alg a True
               = (Success,
                  a\<lparr>store := decrement_lines (store a) (inventory a) (items (order a)),
                    order := new_Order\<rparr>)
             \<and> items (order (snd (on_checkout alg a True))) = []
             \<and> (\<forall>i. get_stock (store (snd (on_checkout alg a True))) (inventory a) i
                      = get_stock (store a) (inventory a) i
                        - demand (store a) (items (order a)) i))"
proof -
  have c: "checkout_loop (store a) (inventory a) (items (order a))
           = (None, decrement_lines (store a) (inventory a) (items (order a)))"
    using ok by (rule checkout_loop_all)
  have s: "\<forall>i. get_stock (decrement_lines (store a) (inventory a) (items (order a)))
                  (inventory a) i
                = get_stock (store a) (inventory a) i - demand (store a) (items (order a)) i"
    using ok by (simp add: get_stock_decrement_lines)
  have h: "\<forall>alg s. Order_total alg (store a) (order a) = Inr s \<longrightarrow>
             on_checkout alg a True
               = (Success,
                  a\<lparr>store := decrement_lines (store a) (inventory a) (items (order a)),
                    order := new_Order\<rparr>)
             \<and> items (order (snd (on_checkout alg a True))) = []
             \<and> (\<forall>i. get_stock (store (snd (on_checkout alg a True))) (inventory a) i
                      = get_stock (store a) (inventory a) i
                        - demand (store a) (items (order a)) i)"
  proof (intro allI impI)
    fix alg s assume t: "Order_total alg (store a) (order a) = Inr s"
    have r: "on_checkout alg a True
               = (Success,
                  a\<lparr>store := decrement_lines (store a) (inventory a) (items (order a)),
                    order := new_Order\<rparr>)"
      by (simp add: on_checkout_reaches_loop [OF ne t] c)
    from s show "on_checkout alg a True
               = (Success,
                  a\<lparr>store := decrement_lines (store a) (inventory a) (items (order a)),
                    order := new_Order\<rparr>)
             \<and> items (order (snd (on_checkout alg a True))) = []
             \<and> (\<forall>i. get_stock (store (snd (on_checkout alg a True))) (inventory a) i
                      = get_stock (store a) (inventory a) i
                        - demand (store a) (items (order a)) i)"
      by (simp add: r new_Order_def)
  qed
  show ?thesis by (rule conjI [OF c conjI [OF s h]])
qed

lemma app1_fields:
  "store app1 = h0" "inventory app1 = iv0" "order app1 = \<lparr>items = [(10, 3)]\<rparr>"
  by (simp_all add: app1_def)

lemma Order_total_app1:
  "Order_total alg h0 \<lparr>items = [(10, 3)]\<rparr> = Inr (Finite 8444249301319680 (- 49))"
  by (cases alg)
    (simp_all add: Order_total_def py_sum_def float_of_int_examples h0_simps
       float_of_bits_examples amount_examples sum_examples del: fmul.simps fadd.simps)

theorem checkout_commits_witness:
  "items (order app1) \<noteq> []
   \<and> lines_succeed (store app1) (inventory app1) (items (order app1))
   \<and> Order_total Compensated (store app1) (order app1) = Inr (Finite 8444249301319680 (- 49))
   \<and> checkout_loop h0 iv0 [(10, 3)] = (None, h0_after)
   \<and> on_checkout Compensated app1 True
       = (Success, app1\<lparr>store := h0_after, order := new_Order\<rparr>)
   \<and> items (order (snd (on_checkout Compensated app1 True))) = []
   \<and> get_stock (store (snd (on_checkout Compensated app1 True))) iv0 7 = 2"
proof -
  note f = app1_fields
  have i: "items (order app1) = [(10, 3)]" by (simp add: f)
  have ne: "items (order app1) \<noteq> []" by (simp add: f)
  have ok: "lines_succeed (store app1) (inventory app1) (items (order app1))"
    unfolding f by (simp add: line_call_example)
  have tot: "Order_total Compensated (store app1) (order app1)
               = Inr (Finite 8444249301319680 (- 49))"
    unfolding f by (rule Order_total_app1)
  have d: "decrement_lines h0 iv0 [(10, 3)] = h0_after" by (simp add: line_call_example)
  note t = checkout_commits [OF ne ok]
  note u = t [THEN conjunct2, THEN conjunct2, THEN spec, THEN spec, THEN mp, OF tot]
  have c: "checkout_loop h0 iv0 [(10, 3)] = (None, h0_after)"
    using t [THEN conjunct1] unfolding f
    by (simp add: line_call_example del: checkout_loop.simps)
  have r: "on_checkout Compensated app1 True
       = (Success, app1\<lparr>store := h0_after, order := new_Order\<rparr>)"
    using u [THEN conjunct1] unfolding f by (simp add: line_call_example)
  have e: "items (order (snd (on_checkout Compensated app1 True))) = []"
    by (rule u [THEN conjunct2, THEN conjunct1])
  have s7: "get_stock (store (snd (on_checkout Compensated app1 True))) iv0 7 = 2"
    using u [THEN conjunct2, THEN conjunct2, THEN spec, of 7]
    unfolding i f by (simp add: get_stock_h0 demand_def h0_simps)
  show ?thesis by (intro conjI) (rule ne ok tot c r e s7)+
qed

section \<open>Quantities that no float can hold\<close>

lemma bit_length_gt: "2 ^ k \<le> n \<Longrightarrow> k < bit_length n"
proof (induction k arbitrary: n)
  case 0
  then have "n \<noteq> 0" by simp
  then show ?case by (subst bit_length.simps) simp
next
  case (Suc k)
  then have "2 ^ k \<le> n div 2" by simp
  then have "k < bit_length (n div 2)" by (rule Suc.IH)
  moreover from Suc.prems have "n \<noteq> 0" by (cases "n = 0") simp_all
  ultimately show ?case by (subst bit_length.simps) simp
qed

lemma float_of_int_huge: "2 ^ 1024 \<le> \<bar>q\<bar> \<Longrightarrow> float_of_int q = Inl OverflowError"
proof -
  assume a: "2 ^ 1024 \<le> \<bar>q\<bar>"
  then have "(2::nat) ^ 1024 \<le> nat \<bar>q\<bar>"
    by (simp add: le_nat_iff)
  then have "1024 < bit_length (nat \<bar>q\<bar>)" by (rule bit_length_gt)
  then have "971 < max (int (bit_length (nat \<bar>q\<bar>)) + 0 - 53) (- 1074)" by simp
  moreover from a have "q \<noteq> 0" by auto
  ultimately show ?thesis by (simp add: float_of_int_def round_to_double_def Let_def)
qed

lemma amounts_huge:
  "(p, q) \<in> set ls \<Longrightarrow> 2 ^ 1024 \<le> \<bar>q\<bar> \<Longrightarrow> amounts h ls = Inl OverflowError"
proof (induction ls)
  case Nil
  then show ?case by simp
next
  case (Cons l ls)
  obtain p' q' where l: "l = (p', q')" by (cases l)
  show ?case
  proof (cases "float_of_int q'")
    case (Inl e)
    then show ?thesis by (cases e) (simp add: l)
  next
    case (Inr x)
    with Cons.prems have "(p, q) \<in> set ls" by (auto simp: l float_of_int_huge)
    then have "amounts h ls = Inl OverflowError" using Cons.prems(2) by (rule Cons.IH)
    with Inr show ?thesis by (simp add: l)
  qed
qed

text \<open>
  The station with \<open>2 ^ 1024\<close> soups: \<^verbatim>\<open>reduce_stock\<close> would grant the one line, and the
  handler is left by \<^verbatim>\<open>OverflowError\<close> before it asks, with nothing changed.
\<close>

lemma checkout_overflow_example:
  "lines_succeed (store app3) (inventory app3) (items (order app3))"
  "on_checkout alg app3 proceed = (Raised OverflowError, app3)"
proof -
  have f: "store app3 = h0_huge" "inventory app3 = iv0"
    "items (order app3) = [(10, 2 ^ 1024)]"
    by (simp_all add: app3_def)
  have p: "pid (h0_huge 10) = 7" and s: "stock (h0_huge 10) = 2 ^ 1024"
    by (simp_all add: h0_huge_def h0_simps)
  have g: "get_product h0_huge iv0 7 = Some 10"
    unfolding h0_huge_def by (simp add: get_product_set_stock get_product_h0)
  have "reduce_stock h0_huge iv0 7 (2 ^ 1024)
          = (True, h0_huge(10 := (h0_huge 10)\<lparr>stock := stock (h0_huge 10) - 2 ^ 1024\<rparr>))"
    using g by (rule reduce_stock_succeeds) (simp_all add: s)
  then show "lines_succeed (store app3) (inventory app3) (items (order app3))"
    unfolding f by (simp add: line_call_def p)
  have "amounts (store app3) (items (order app3)) = Inl OverflowError"
    unfolding f by (rule amounts_huge [of 10 "2 ^ 1024"]) simp_all
  then have "Order_total alg (store app3) (order app3) = Inl OverflowError"
    by (simp add: Order_total_def)
  moreover have "items (order app3) \<noteq> []" by (simp add: f)
  ultimately show "on_checkout alg app3 proceed = (Raised OverflowError, app3)"
    by (simp add: on_checkout_raises)
qed

section \<open>Totals\<close>

lemma float_of_int_Inr: "float_of_int q = Inr x \<Longrightarrow> x = round_to_double q 0"
  by (simp add: float_of_int_def split: pyfloat.splits)

lemma amounts_Inr:
  "amounts h ls = Inr xs \<Longrightarrow>
     xs = map (\<lambda>l. fmul (float_of_bits (price (h (fst l)))) (round_to_double (snd l) 0)) ls
     \<and> list_all (\<lambda>l. float_of_int (snd l) = Inr (round_to_double (snd l) 0)) ls"
proof (induction ls arbitrary: xs)
  case Nil
  then show ?case by simp
next
  case (Cons l ls)
  obtain p q where l: "l = (p, q)" by (cases l)
  from Cons.prems obtain x ys where x: "float_of_int q = Inr x"
    and ys: "amounts h ls = Inr ys"
    and xs: "xs = fmul (float_of_bits (price (h p))) x # ys"
    by (auto simp: l split: sum.splits)
  from x have x': "x = round_to_double q 0" by (rule float_of_int_Inr)
  from Cons.IH [OF ys] x show ?case by (simp add: l xs x' del: fmul.simps)
qed

lemma py_sum_One_by_one: "py_sum One_by_one xs = foldl fadd (Finite 0 0) xs"
  by (cases xs) (simp_all add: py_sum_def)

text \<open>
  C7, as stated, does not hold. The rate is the module constant \<^verbatim>\<open>TAX_RATE\<close>, 0.07, and
  not a number the caller gives; and the numbers are floats, each operation rounded, so
  that \<^verbatim>\<open>subtotal * (1 + TAX_RATE) == total\<close> fails for the order of three soups at 5.0
  and two teas at 2.0: the subtotal is 19.0, the tax 1.33, the total 20.33
  (\<^verbatim>\<open>0x1.4547ae147ae14p+4\<close>), and \<^verbatim>\<open>19.0 * (1 + 0.07)\<close> is 20.330000000000002
  (\<^verbatim>\<open>0x1.4547ae147ae15p+4\<close>), with either way of summing.
\<close>

theorem totals_identity_counterexample:
  "update_order_summary One_by_one app0
     = Inr (Finite 5348024557502464 (- 48), Finite 5989787504402760 (- 52),
            Finite 5722386276527636 (- 48))
   \<and> update_order_summary Compensated app0
     = Inr (Finite 5348024557502464 (- 48), Finite 5989787504402760 (- 52),
            Finite 5722386276527636 (- 48))
   \<and> float_of_int 1 = Inr (Finite 4503599627370496 (- 52))
   \<and> fmul (Finite 5348024557502464 (- 48)) (fadd (Finite 4503599627370496 (- 52)) TAX_RATE)
     = Finite 5722386276527637 (- 48)
   \<and> \<not> float_eq
          (fmul (Finite 5348024557502464 (- 48))
             (fadd (Finite 4503599627370496 (- 52)) TAX_RATE))
          (Finite 5722386276527636 (- 48))"
proof -
  have s: "update_order_summary alg app0
     = Inr (Finite 5348024557502464 (- 48), Finite 5989787504402760 (- 52),
            Finite 5722386276527636 (- 48))" for alg
    by (simp add: update_order_summary_def app0_fields Order_total_app0 tax_examples
          del: fmul.simps fadd.simps)
  have one: "float_of_int 1 = Inr (Finite 4503599627370496 (- 52))"
    by (simp add: float_of_int_def float_eval)
  have r: "fadd (Finite 4503599627370496 (- 52)) TAX_RATE = Finite 4818851601286431 (- 52)"
    by (simp add: TAX_RATE_def float_eval)
  have p: "fmul (Finite 5348024557502464 (- 48))
             (fadd (Finite 4503599627370496 (- 52)) TAX_RATE)
           = Finite 5722386276527637 (- 48)"
    by (simp add: r tax_examples del: fmul.simps fadd.simps)
  have n: "\<not> float_eq
          (fmul (Finite 5348024557502464 (- 48))
             (fadd (Finite 4503599627370496 (- 52)) TAX_RATE))
          (Finite 5722386276527636 (- 48))"
    by (simp add: p del: fmul.simps fadd.simps)
  show ?thesis by (intro conjI) (rule s one p n)+
qed

text \<open>
  C7, amended. For every order whose quantities all convert to floats, and with the
  module constant \<^verbatim>\<open>TAX_RATE\<close> for the rate: the amounts summed are, line by line and in
  the order of the lines, the product of the price the item has now and the quantity,
  each rounded to the nearest double; the subtotal is Python's \<^verbatim>\<open>sum\<close> of them (before
  CPython 3.12, the amounts added one by one from 0, each sum rounded); the tax is
  \<^verbatim>\<open>subtotal * TAX_RATE\<close> and the total \<^verbatim>\<open>subtotal + tax\<close>, each rounded once, and nothing
  is rounded to cents before the three numbers are formatted. The total equals
  \<^verbatim>\<open>subtotal * (1 + TAX_RATE)\<close> up to these roundings only.
\<close>

theorem order_summary_arithmetic:
  assumes "amounts (store a) (items (order a)) = Inr xs"
  shows "xs = map (\<lambda>l. fmul (float_of_bits (price (store a (fst l))))
                          (round_to_double (snd l) 0)) (items (order a))
       \<and> list_all (\<lambda>l. float_of_int (snd l) = Inr (round_to_double (snd l) 0))
           (items (order a))
       \<and> Order_total alg (store a) (order a) = Inr (py_sum alg xs)
       \<and> update_order_summary alg a
           = Inr (py_sum alg xs, fmul (py_sum alg xs) TAX_RATE,
                  fadd (py_sum alg xs) (fmul (py_sum alg xs) TAX_RATE))
       \<and> py_sum One_by_one xs = foldl fadd (Finite 0 0) xs"
proof -
  note a = amounts_Inr [OF assms]
  have t: "Order_total alg (store a) (order a) = Inr (py_sum alg xs)"
    by (simp add: Order_total_def assms)
  have u: "update_order_summary alg a
           = Inr (py_sum alg xs, fmul (py_sum alg xs) TAX_RATE,
                  fadd (py_sum alg xs) (fmul (py_sum alg xs) TAX_RATE))"
    by (simp add: update_order_summary_def t Let_def)
  show ?thesis
    by (rule conjI [OF a [THEN conjunct1] conjI [OF a [THEN conjunct2]
          conjI [OF t conjI [OF u py_sum_One_by_one]]]])
qed

theorem order_summary_arithmetic_witness:
  "amounts (store app0) (items (order app0))
     = Inr [Finite 8444249301319680 (- 49), Finite 4503599627370496 (- 50)]
   \<and> Order_total Compensated (store app0) (order app0) = Inr (Finite 5348024557502464 (- 48))
   \<and> update_order_summary Compensated app0
     = Inr (Finite 5348024557502464 (- 48), Finite 5989787504402760 (- 52),
            Finite 5722386276527636 (- 48))
   \<and> foldl fadd (Finite 0 0) [Finite 8444249301319680 (- 49), Finite 4503599627370496 (- 50)]
     = Finite 5348024557502464 (- 48)"
proof -
  have am: "amounts (store app0) (items (order app0))
     = Inr [Finite 8444249301319680 (- 49), Finite 4503599627370496 (- 50)]"
    by (simp add: app0_fields amounts_app0 del: amounts.simps)
  note t = order_summary_arithmetic [OF am]
  note t3 = t [THEN conjunct2, THEN conjunct2]
  have tot: "Order_total Compensated (store app0) (order app0)
               = Inr (Finite 5348024557502464 (- 48))"
    using t3 [THEN conjunct1, of Compensated] by (simp only: py_sum_app0)
  have su: "update_order_summary Compensated app0
     = Inr (Finite 5348024557502464 (- 48), Finite 5989787504402760 (- 52),
            Finite 5722386276527636 (- 48))"
    using t3 [THEN conjunct2, THEN conjunct1, of Compensated]
    by (simp only: py_sum_app0 tax_examples)
  have fo: "foldl fadd (Finite 0 0)
              [Finite 8444249301319680 (- 49), Finite 4503599627370496 (- 50)]
            = Finite 5348024557502464 (- 48)"
    using t3 [THEN conjunct2, THEN conjunct2] by (simp only: py_sum_app0)
  show ?thesis by (intro conjI) (rule am tot su fo)+
qed

section \<open>When every line of an order succeeds\<close>

text \<open>
  The hypothesis of the two checkout theorems, that the calls for the lines succeed one
  after the other, says the same as a condition on the store before the first call: the
  quantities are positive, the ids are known, and the demand on each id fits its stock.
\<close>

lemma line_call_ok_iff:
  "fst (line_call h iv l) \<longleftrightarrow>
     get_product h iv (pid (h (fst l))) \<noteq> None \<and> 0 < snd l
     \<and> snd l \<le> get_stock h iv (pid (h (fst l)))"
  by (auto simp: line_call_def reduce_stock_def get_stock_def split: option.splits)

lemma demand_nonneg: "\<forall>l \<in> set ls. 0 < snd l \<Longrightarrow> 0 \<le> demand h ls i"
  by (induction ls) (auto simp: demand_Cons demand_def)

lemma demand_absent: "\<forall>l \<in> set ls. pid (h (fst l)) \<noteq> i \<Longrightarrow> demand h ls i = 0"
  by (induction ls) (auto simp: demand_Cons demand_def)

lemma lines_succeed_iff: "lines_succeed h iv ls \<longleftrightarrow> lines_fit h iv ls"
proof (induction ls arbitrary: h)
  case Nil
  show ?case by (simp add: lines_fit_def)
next
  case (Cons l ls)
  let ?h = "snd (line_call h iv l)"
  let ?i = "pid (h (fst l))"
  have ids: "\<And>r. pid (?h r) = pid (h r)" by (rule line_call_ids)
  have gp: "\<And>j. get_product ?h iv j = get_product h iv j"
    using ids by (rule get_product_same_ids)
  have dm: "\<And>j. demand ?h ls j = demand h ls j" using ids by (rule demand_same_ids)
  show ?case
  proof
    assume "lines_succeed h iv (l # ls)"
    then have ok: "fst (line_call h iv l)" and rest: "lines_fit ?h iv ls"
      by (simp_all add: Cons.IH)
    have gs: "\<And>j. get_stock ?h iv j = get_stock h iv j - (if ?i = j then snd l else 0)"
      using ok by (rule get_stock_line_call)
    from ok have l: "get_product h iv ?i \<noteq> None" "0 < snd l" "snd l \<le> get_stock h iv ?i"
      by (simp_all add: line_call_ok_iff)
    have "demand h ls ?i \<le> get_stock h iv ?i - snd l"
    proof (cases "\<exists>m \<in> set ls. pid (h (fst m)) = ?i")
      case True
      then obtain m where m: "m \<in> set ls" "pid (h (fst m)) = ?i" by blast
      with rest have "demand ?h ls (pid (?h (fst m))) \<le> get_stock ?h iv (pid (?h (fst m)))"
        by (simp add: lines_fit_def)
      then show ?thesis by (simp add: ids dm gs m)
    next
      case False
      then have "demand h ls ?i = 0" by (intro demand_absent) blast
      with l show ?thesis by simp
    qed
    then have first: "demand h (l # ls) ?i \<le> get_stock h iv ?i" by (simp add: demand_Cons)
    have others: "\<forall>m \<in> set ls. 0 < snd m \<and> get_product h iv (pid (h (fst m))) \<noteq> None
        \<and> demand h (l # ls) (pid (h (fst m))) \<le> get_stock h iv (pid (h (fst m)))"
    proof
      fix m assume m: "m \<in> set ls"
      with rest have "0 < snd m" "get_product ?h iv (pid (?h (fst m))) \<noteq> None"
        "demand ?h ls (pid (?h (fst m))) \<le> get_stock ?h iv (pid (?h (fst m)))"
        by (simp_all add: lines_fit_def)
      then show "0 < snd m \<and> get_product h iv (pid (h (fst m))) \<noteq> None
        \<and> demand h (l # ls) (pid (h (fst m))) \<le> get_stock h iv (pid (h (fst m)))"
        by (simp add: ids gp dm gs demand_Cons)
    qed
    from l first others show "lines_fit h iv (l # ls)" by (simp add: lines_fit_def)
  next
    assume fit: "lines_fit h iv (l # ls)"
    then have l: "0 < snd l" "get_product h iv ?i \<noteq> None"
      "demand h (l # ls) ?i \<le> get_stock h iv ?i"
      and ms: "\<forall>m \<in> set ls. 0 < snd m \<and> get_product h iv (pid (h (fst m))) \<noteq> None
        \<and> demand h (l # ls) (pid (h (fst m))) \<le> get_stock h iv (pid (h (fst m)))"
      by (simp_all add: lines_fit_def)
    from ms have "0 \<le> demand h ls ?i" by (intro demand_nonneg) blast
    with l have ok: "fst (line_call h iv l)" by (simp add: line_call_ok_iff demand_Cons)
    have gs: "\<And>j. get_stock ?h iv j = get_stock h iv j - (if ?i = j then snd l else 0)"
      using ok by (rule get_stock_line_call)
    have "lines_fit ?h iv ls"
      unfolding lines_fit_def
    proof
      fix m assume "m \<in> set ls"
      with ms have "0 < snd m" "get_product h iv (pid (h (fst m))) \<noteq> None"
        "demand h (l # ls) (pid (h (fst m))) \<le> get_stock h iv (pid (h (fst m)))" by simp_all
      then show "0 < snd m \<and> get_product ?h iv (pid (?h (fst m))) \<noteq> None
        \<and> demand ?h ls (pid (?h (fst m))) \<le> get_stock ?h iv (pid (?h (fst m)))"
        by (simp add: ids gp dm gs demand_Cons)
    qed
    with ok show "lines_succeed h iv (l # ls)" by (simp add: Cons.IH)
  qed
qed

end
